theory Spec2Isabelle
  imports Main
begin

section \<open>Python primitives used by the script\<close>

text \<open>
  The script \<^verbatim>\<open>scripts/generate_icon.py\<close> formats integers with f-strings, joins
  paths with \<^verbatim>\<open>os.path.join\<close> and serialises a dictionary with
  \<^verbatim>\<open>json.dump(contents, f, indent=2)\<close>. Python integers are unbounded, so they
  are \<^typ>\<open>int\<close> here; strings are \<^typ>\<open>string\<close>.
\<close>

definition digit_char :: "nat \<Rightarrow> char" where
  "digit_char n = ''0123456789'' ! (n mod 10)"

fun str_nat :: "nat \<Rightarrow> string" where
  "str_nat n = (if n < 10 then [digit_char n] else str_nat (n div 10) @ [digit_char n])"

declare str_nat.simps [simp del]

text \<open>\<^verbatim>\<open>str(i)\<close> and \<^verbatim>\<open>f"{i}"\<close> for an integer: decimal digits, a minus sign first
  when negative.\<close>

definition str :: "int \<Rightarrow> string" where
  "str i = (if i < 0 then ''-'' @ str_nat (nat (- i)) else str_nat (nat i))"

text \<open>\<^verbatim>\<open>os.path.join(a, b)\<close> of \<^verbatim>\<open>posixpath\<close> with two arguments: an absolute
  \<open>b\<close> replaces \<open>a\<close>; an empty \<open>a\<close> or one ending in a slash takes \<open>b\<close> directly;
  otherwise a slash is put between them.\<close>

definition path_join :: "string \<Rightarrow> string \<Rightarrow> string" where
  "path_join a b =
     (if take 1 b = ''/'' then b
      else if a = [] \<or> last a = CHR ''/'' then a @ b
      else a @ ''/'' @ b)"

subsection \<open>JSON values and \<^verbatim>\<open>json.dump\<close> with \<^verbatim>\<open>indent=2\<close>\<close>

text \<open>A Python dictionary keeps its insertion order, and \<^verbatim>\<open>json.dump\<close> writes the
  keys in that order: a dictionary is an association list.\<close>

datatype json =
    JString string
  | JInt int
  | JList "json list"
  | JDict "(string \<times> json) list"

definition hex_digit :: "nat \<Rightarrow> char" where
  "hex_digit n = ''0123456789abcdef'' ! (n mod 16)"

text \<open>The encoder's \<^verbatim>\<open>ensure_ascii\<close> escaping of one character: backslash and double
  quote are escaped, the five short escapes are used, and every other character outside
  the range from space to tilde becomes \<^verbatim>\<open>\u00XX\<close>.\<close>

definition escape_char :: "char \<Rightarrow> string" where
  "escape_char c =
     (let n = (of_char c :: nat) in
      if n = 0x5C then [CHR 0x5C, CHR 0x5C]
      else if n = 0x22 then [CHR 0x5C, CHR 0x22]
      else if n = 0x08 then [CHR 0x5C, CHR ''b'']
      else if n = 0x0C then [CHR 0x5C, CHR ''f'']
      else if n = 0x0A then [CHR 0x5C, CHR ''n'']
      else if n = 0x0D then [CHR 0x5C, CHR ''r'']
      else if n = 0x09 then [CHR 0x5C, CHR ''t'']
      else if n < 0x20 \<or> 0x7E < n
        then [CHR 0x5C, CHR ''u'', CHR ''0'', CHR ''0'', hex_digit (n div 16), hex_digit n]
      else [c])"

definition encode_string :: "string \<Rightarrow> string" where
  "encode_string s = [CHR 0x22] @ concat (map escape_char s) @ [CHR 0x22]"

fun join_with :: "string \<Rightarrow> string list \<Rightarrow> string" where
  "join_with sep [] = []"
| "join_with sep [x] = x"
| "join_with sep (x # y # ys) = x @ sep @ join_with sep (y # ys)"

definition newline_indent :: "nat \<Rightarrow> string" where
  "newline_indent level = CHR 0x0A # concat (replicate level ''  '')"

fun dumps :: "nat \<Rightarrow> json \<Rightarrow> string" where
  "dumps level (JString s) = encode_string s"
| "dumps level (JInt i) = str i"
| "dumps level (JList xs) =
     (if xs = [] then ''[]''
      else ''['' @ newline_indent (Suc level)
           @ join_with ('','' @ newline_indent (Suc level)) (map (dumps (Suc level)) xs)
           @ newline_indent level @ '']'')"
| "dumps level (JDict kvs) =
     (if kvs = [] then ''{}''
      else ''{'' @ newline_indent (Suc level)
           @ join_with ('','' @ newline_indent (Suc level))
               (map (\<lambda>kv. encode_string (fst kv) @ '': '' @ dumps (Suc level) (snd kv)) kvs)
           @ newline_indent level @ ''}'')"

definition json_dump :: "json \<Rightarrow> string" where
  "json_dump obj = dumps 0 obj"

text \<open>Reading a dictionary: \<^verbatim>\<open>d.get(k)\<close>, and the list under a key.\<close>

fun dict_get :: "json \<Rightarrow> string \<Rightarrow> json option" where
  "dict_get (JDict kvs) k = map_of kvs k"
| "dict_get _ k = None"

fun list_under :: "json \<Rightarrow> string \<Rightarrow> json list" where
  "list_under d k = (case dict_get d k of Some (JList xs) \<Rightarrow> xs | _ \<Rightarrow> [])"

section \<open>The script's constants\<close>

definition ICON_DIR :: string where
  "ICON_DIR = ''/Volumes/Code/source/repos/enclave/Enclave/Assets.xcassets/AppIcon.appiconset''"

definition SIZES :: "(int \<times> int) list" where
  "SIZES = [(16, 1), (16, 2), (32, 1), (32, 2), (128, 1), (128, 2),
            (256, 1), (256, 2), (512, 1), (512, 2)]"

definition SVG_CONTENT :: string where
  \<open>SVG_CONTENT =
     ''<svg xmlns="http://www.w3.org/2000/svg" viewBox="0 0 512 512">\<newline>'' @
     ''  <defs>\<newline>'' @
     ''    <linearGradient id="bg" x1="0%" y1="0%" x2="100%" y2="100%">\<newline>'' @
     ''      <stop offset="0%" stop-color="#1a1a2e"/>\<newline>'' @
     ''      <stop offset="100%" stop-color="#16213e"/>\<newline>'' @
     ''    </linearGradient>\<newline>'' @
     ''    <linearGradient id="shield" x1="0%" y1="0%" x2="100%" y2="100%">\<newline>'' @
     ''      <stop offset="0%" stop-color="#00d4ff"/>\<newline>'' @
     ''      <stop offset="100%" stop-color="#0099cc"/>\<newline>'' @
     ''    </linearGradient>\<newline>'' @
     ''    <linearGradient id="key" x1="0%" y1="0%" x2="100%" y2="100%">\<newline>'' @
     ''      <stop offset="0%" stop-color="#ffd700"/>\<newline>'' @
     ''      <stop offset="100%" stop-color="#ffaa00"/>\<newline>'' @
     ''    </linearGradient>\<newline>'' @
     ''  </defs>\<newline>'' @
     ''  <rect x="20" y="20" width="472" height="472" rx="90" fill="url(#bg)"/>\<newline>'' @
     ''  <path d="M256 80 L400 130 L400 280 C400 380 256 440 256 440 C256 440 112 380 112 280 L112 130 Z" \<newline>'' @
     ''        fill="none" stroke="url(#shield)" stroke-width="20" stroke-linejoin="round"/>\<newline>'' @
     ''  <g transform="translate(256, 260) rotate(-45)">\<newline>'' @
     ''    <circle cx="-60" cy="0" r="50" fill="url(#key)"/>\<newline>'' @
     ''    <circle cx="-60" cy="0" r="20" fill="url(#bg)"/>\<newline>'' @
     ''    <rect x="-20" y="-12" width="120" height="24" rx="8" fill="url(#key)"/>\<newline>'' @
     ''    <rect x="70" y="-12" width="12" height="35" rx="3" fill="url(#key)"/>\<newline>'' @
     ''    <rect x="90" y="-12" width="12" height="25" rx="3" fill="url(#key)"/>\<newline>'' @
     ''  </g>\<newline>'' @
     ''  <circle cx="256" cy="160" r="25" fill="url(#shield)"/>\<newline>'' @
     ''  <rect x="244" y="155" width="24" height="20" rx="3" fill="url(#bg)"/>\<newline>'' @
     ''  <path d="M250 155 L250 145 A12 12 0 0 1 262 145 L262 155" fill="none" stroke="url(#bg)" stroke-width="4"/>\<newline>'' @
     ''</svg>''\<close>

section \<open>The world the script acts on\<close>

text \<open>
  The script only acts on its environment: it writes two files, creates a directory,
  prints lines and runs the converter. Each action is an event, and a run of the script
  is the list of its events in order, together with the exception that ended it, if one
  did.
\<close>

datatype event =
    FileWrite string string
  | Makedirs string bool
  | Print string
  | SubprocessRun "string list"

text \<open>
  What the converter program does when it is started on an argument vector: the program
  is not installed; it is there but cannot be executed; starting it fails for another
  reason of the operating system; or it runs to its end and leaves an exit status, with
  captured output that is text (\<open>True\<close>) or bytes that do not decode (\<open>False\<close>).
\<close>

datatype process = NotFound | NotExecutable | SpawnFailed | Exited int bool

type_synonym converter = "string list \<Rightarrow> process"

datatype exception = FileNotFoundError | PermissionError | OSError | UnicodeDecodeError

text \<open>
  \<^verbatim>\<open>subprocess.run(argv, capture_output=True, text=True)\<close>: it raises
  \<^verbatim>\<open>FileNotFoundError\<close> for a program that is not installed, \<^verbatim>\<open>PermissionError\<close>
  for one that cannot be executed and another \<^verbatim>\<open>OSError\<close> when starting it fails
  otherwise; for a program that ran it decodes the captured output
  and raises \<^verbatim>\<open>UnicodeDecodeError\<close> when that fails, whatever the exit status;
  otherwise it returns the completed process, of which the script reads the
  \<^verbatim>\<open>returncode\<close>.
\<close>

fun subprocess_run :: "process \<Rightarrow> exception + int" where
  "subprocess_run NotFound = Inl FileNotFoundError"
| "subprocess_run NotExecutable = Inl PermissionError"
| "subprocess_run SpawnFailed = Inl OSError"
| "subprocess_run (Exited returncode decodes) =
     (if decodes then Inr returncode else Inl UnicodeDecodeError)"

text \<open>
  The script catches \<^verbatim>\<open>FileNotFoundError\<close> around \<^verbatim>\<open>subprocess.run\<close> and nothing
  else (line 75; \<open>OSError\<close> here stands for one that is not a
  \<^verbatim>\<open>FileNotFoundError\<close>): every other exception of the call leaves \<^verbatim>\<open>main\<close> at once. A
  failure of \<^verbatim>\<open>open\<close>, \<^verbatim>\<open>os.makedirs\<close> or \<^verbatim>\<open>json.dump\<close> would end the run in the
  same way; those are not modelled: the file system accepts every write.
\<close>

section \<open>\<^verbatim>\<open>main\<close>\<close>

definition icon_filename :: "int \<Rightarrow> int \<Rightarrow> string" where
  "icon_filename sz scale = ''icon_'' @ str sz @ ''x'' @ str sz @ ''@'' @ str scale @ ''x.png''"

definition rsvg_argv :: "string \<Rightarrow> string \<Rightarrow> int \<Rightarrow> string list" where
  "rsvg_argv svg_path filepath actual_size =
     [''rsvg-convert'', ''-w'', str actual_size, ''-h'', str actual_size,
      ''-o'', filepath, svg_path]"

text \<open>One iteration of the first loop (lines 60 to 78). The state is the list \<open>images\<close>
  and the events so far; the result is the new state and the exception that leaves the
  iteration, if any. A zero return code appends to \<open>images\<close>, prints
  \<^verbatim>\<open>Generated\<close> and continues; a non-zero return code and the caught
  \<^verbatim>\<open>FileNotFoundError\<close> both fall through to the \<^verbatim>\<open>Skipped\<close> line; any other
  exception is not caught, and nothing is printed or appended after the invocation.\<close>

fun render_one ::
  "converter \<Rightarrow> string \<Rightarrow> (string \<times> int \<times> int) list \<times> event list \<Rightarrow> int \<times> int
     \<Rightarrow> ((string \<times> int \<times> int) list \<times> event list) \<times> exception option" where
  "render_one run svg_path (images, tr) (sz, scale) =
     (let actual_size = sz * scale;
          filename = icon_filename sz scale;
          filepath = path_join ICON_DIR filename;
          argv = rsvg_argv svg_path filepath actual_size;
          skipped = Print (''Skipped '' @ filename @ '' - install librsvg: brew install librsvg'')
      in case subprocess_run (run argv) of
           Inr returncode \<Rightarrow>
             if returncode = 0
             then ((images @ [(filename, sz, scale)],
                    tr @ [SubprocessRun argv, Print (''Generated '' @ filename)]), None)
             else ((images, tr @ [SubprocessRun argv, skipped]), None)
         | Inl e \<Rightarrow>
             if e = FileNotFoundError
             then ((images, tr @ [SubprocessRun argv, skipped]), None)
             else ((images, tr @ [SubprocessRun argv]), Some e))"

text \<open>The loop over a list of pairs: it stops at the first iteration that an exception
  leaves.\<close>

fun render_loop ::
  "converter \<Rightarrow> string \<Rightarrow> (string \<times> int \<times> int) list \<times> event list \<Rightarrow> (int \<times> int) list
     \<Rightarrow> ((string \<times> int \<times> int) list \<times> event list) \<times> exception option" where
  "render_loop run svg_path st [] = (st, None)"
| "render_loop run svg_path st (sp # rest) =
     (case render_one run svg_path st sp of
        (st', None) \<Rightarrow> render_loop run svg_path st' rest
      | (st', Some e) \<Rightarrow> (st', Some e))"

definition render_all ::
  "converter \<Rightarrow> string \<Rightarrow> (string \<times> int \<times> int) list \<times> event list
     \<Rightarrow> ((string \<times> int \<times> int) list \<times> event list) \<times> exception option" where
  "render_all run svg_path st = render_loop run svg_path st SIZES"

text \<open>The two loops that fill \<^verbatim>\<open>contents["images"]\<close> (lines 81 to 98): first one
  entry with a \<^verbatim>\<open>filename\<close> for every triple of \<open>images\<close>, then one entry without
  it for every pair of \<open>SIZES\<close> that is not in the set \<open>existing\<close>.\<close>

definition produced_entry :: "string \<times> int \<times> int \<Rightarrow> json" where
  "produced_entry = (\<lambda>(filename, sz, scale).
     JDict [(''filename'', JString filename),
            (''idiom'', JString ''mac''),
            (''scale'', JString (str scale @ ''x'')),
            (''size'', JString (str sz @ ''x'' @ str sz))])"

definition missing_entry :: "int \<times> int \<Rightarrow> json" where
  "missing_entry = (\<lambda>(sz, scale).
     JDict [(''idiom'', JString ''mac''),
            (''scale'', JString (str scale @ ''x'')),
            (''size'', JString (str sz @ ''x'' @ str sz))])"

definition build_contents :: "(string \<times> int \<times> int) list \<Rightarrow> json" where
  "build_contents images =
     (let entries = map produced_entry images;
          existing = set (map (\<lambda>(_, s, sc). (s, sc)) images);
          entries = entries @ map missing_entry (filter (\<lambda>p. p \<notin> existing) SIZES)
      in JDict [(''images'', JList entries),
                (''info'', JDict [(''author'', JString ''xcode''), (''version'', JInt 1)])])"

definition svg_path :: string where
  "svg_path = ''/tmp/enclave_icon.svg''"

definition contents_path :: string where
  "contents_path = path_join ICON_DIR ''Contents.json''"

text \<open>The state when the first loop is left, at its end (line 79) or by an exception:
  the SVG file is written, its path printed and the icon directory created (lines 52 to
  57), then the pairs of \<open>SIZES\<close> have been through the loop body, up to the first
  iteration that raised.\<close>

definition rendered ::
  "converter \<Rightarrow> ((string \<times> int \<times> int) list \<times> event list) \<times> exception option" where
  "rendered run =
     render_all run svg_path
       ([], [FileWrite svg_path SVG_CONTENT, Print (''Created SVG at '' @ svg_path),
             Makedirs ICON_DIR True])"

text \<open>The dictionary \<open>contents\<close> that lines 81 to 98 build from \<open>images\<close>, as it is
  handed to \<^verbatim>\<open>json.dump\<close> (line 102). The run builds it only when the loop ended
  without an exception.\<close>

definition contents :: "converter \<Rightarrow> json" where
  "contents run = build_contents (fst (fst (rendered run)))"

text \<open>A run of \<^verbatim>\<open>main\<close>: its events, and \<open>None\<close> when it returned or the exception
  that ended it.\<close>

definition main :: "converter \<Rightarrow> event list \<times> exception option" where
  "main run =
     (case snd (rendered run) of
        Some e \<Rightarrow> (snd (fst (rendered run)), Some e)
      | None \<Rightarrow>
          (snd (fst (rendered run))
             @ [FileWrite contents_path (json_dump (contents run)),
                Print (''Updated '' @ contents_path)],
           None))"

section \<open>Observing a run\<close>

text \<open>The events of a run, and whether it returned: no exception ended it, so it
  reached the last line of \<^verbatim>\<open>main\<close>.\<close>

definition trace :: "converter \<Rightarrow> event list" where
  "trace run = fst (main run)"

definition returns :: "converter \<Rightarrow> bool" where
  "returns run = (snd (main run) = None)"

text \<open>The file system after the events of a run: \<^verbatim>\<open>open(path, "w")\<close> followed by one
  \<^verbatim>\<open>write\<close> replaces the content of the file.\<close>

fun apply_event :: "(string \<rightharpoonup> string) \<Rightarrow> event \<Rightarrow> (string \<rightharpoonup> string)" where
  "apply_event fs (FileWrite p c) = fs(p \<mapsto> c)"
| "apply_event fs _ = fs"

definition fs_after :: "event list \<Rightarrow> (string \<rightharpoonup> string) \<Rightarrow> (string \<rightharpoonup> string)" where
  "fs_after tr fs = foldl apply_event fs tr"

fun invocations :: "event list \<Rightarrow> string list list" where
  "invocations [] = []"
| "invocations (SubprocessRun argv # es) = argv # invocations es"
| "invocations (_ # es) = invocations es"

fun printed :: "event list \<Rightarrow> string list" where
  "printed [] = []"
| "printed (Print s # es) = s # printed es"
| "printed (_ # es) = printed es"

text \<open>The argument vector the loop body builds for a pair of \<open>SIZES\<close>; whether the
  converter succeeds on it, that is, \<^verbatim>\<open>subprocess.run\<close> returns the code zero; and
  the exception that leaves the iteration for the pair, if one does.\<close>

definition invocation :: "int \<times> int \<Rightarrow> string list" where
  "invocation = (\<lambda>(sz, scale).
     rsvg_argv svg_path (path_join ICON_DIR (icon_filename sz scale)) (sz * scale))"

definition succeeds :: "converter \<Rightarrow> int \<times> int \<Rightarrow> bool" where
  "succeeds run sp = (subprocess_run (run (invocation sp)) = Inr 0)"

definition escapes :: "converter \<Rightarrow> int \<times> int \<Rightarrow> exception option" where
  "escapes run sp =
     (case subprocess_run (run (invocation sp)) of
        Inr returncode \<Rightarrow> None
      | Inl e \<Rightarrow> if e = FileNotFoundError then None else Some e)"

text \<open>The pairs of a list that the loop reaches: all of them up to and including the
  first whose iteration an exception leaves.\<close>

fun attempted :: "converter \<Rightarrow> (int \<times> int) list \<Rightarrow> (int \<times> int) list" where
  "attempted run [] = []"
| "attempted run (sp # rest) =
     (if escapes run sp = None then sp # attempted run rest else [sp])"

text \<open>The triple the loop appends to \<open>images\<close> for a pair, and the line it prints
  when the pair is skipped.\<close>

definition image_of :: "int \<times> int \<Rightarrow> string \<times> int \<times> int" where
  "image_of = (\<lambda>(sz, scale). (icon_filename sz scale, sz, scale))"

definition skipped_line :: "int \<times> int \<Rightarrow> string" where
  "skipped_line = (\<lambda>(sz, scale).
     ''Skipped '' @ icon_filename sz scale @ '' - install librsvg: brew install librsvg'')"

definition generated_line :: "int \<times> int \<Rightarrow> string" where
  "generated_line = (\<lambda>(sz, scale). ''Generated '' @ icon_filename sz scale)"

text \<open>The events of the iteration for a pair, and the exception that ends the loop over a
  list of pairs: that of the first iteration an exception leaves.\<close>

definition step_events :: "converter \<Rightarrow> int \<times> int \<Rightarrow> event list" where
  "step_events run sp =
     SubprocessRun (invocation sp)
     # (if escapes run sp = None
        then [Print (if succeeds run sp then generated_line sp else skipped_line sp)]
        else [])"

fun first_escape :: "converter \<Rightarrow> (int \<times> int) list \<Rightarrow> exception option" where
  "first_escape run [] = None"
| "first_escape run (sp # rest) =
     (case escapes run sp of None \<Rightarrow> first_escape run rest | Some e \<Rightarrow> Some e)"

text \<open>The list \<^verbatim>\<open>contents["images"]\<close>, and what an entry of it says: the pair it
  describes by its \<^verbatim>\<open>size\<close> and \<^verbatim>\<open>scale\<close> strings, and whether it has the key
  \<^verbatim>\<open>filename\<close>.\<close>

definition manifest_images :: "converter \<Rightarrow> json list" where
  "manifest_images run = list_under (contents run) ''images''"

definition describes :: "json \<Rightarrow> int \<times> int \<Rightarrow> bool" where
  "describes e = (\<lambda>(sz, scale).
     dict_get e ''size'' = Some (JString (str sz @ ''x'' @ str sz))
     \<and> dict_get e ''scale'' = Some (JString (str scale @ ''x'')))"

definition has_filename :: "json \<Rightarrow> bool" where
  "has_filename e = (dict_get e ''filename'' \<noteq> None)"

subsection \<open>Converters used as concrete inputs\<close>

text \<open>A converter that is not installed; one that always succeeds; one that exits with
  the status \<open>rc\<close> on the invocation for one pair and succeeds on every other; and one
  that does the same but with output, on that one invocation, that does not decode.\<close>

definition converter_absent :: converter where
  "converter_absent argv = NotFound"

definition converter_ok :: converter where
  "converter_ok argv = Exited 0 True"

definition converter_failing_on :: "int \<times> int \<Rightarrow> int \<Rightarrow> converter" where
  "converter_failing_on sp rc argv =
     (if argv = invocation sp then Exited rc True else Exited 0 True)"

definition converter_garbled_on :: "int \<times> int \<Rightarrow> int \<Rightarrow> converter" where
  "converter_garbled_on sp rc argv =
     (if argv = invocation sp then Exited rc False else Exited 0 True)"

section \<open>Evaluating the constants\<close>

lemma str_values:
  "str 1 = ''1''" "str 2 = ''2''" "str 16 = ''16''" "str 32 = ''32''" "str 64 = ''64''"
  "str 128 = ''128''" "str 256 = ''256''" "str 512 = ''512''" "str 1024 = ''1024''"
  by code_simp+

lemma distinct_SIZES: "distinct SIZES"
  by (simp add: SIZES_def)

lemma length_SIZES: "length SIZES = 10"
  by (simp add: SIZES_def)

lemma path_join_ICON_DIR:
  "path_join ICON_DIR (''icon_'' @ s) = ICON_DIR @ ''/'' @ ''icon_'' @ s"
  by (simp add: path_join_def ICON_DIR_def)

section \<open>What the first loop computes\<close>

lemma succeeds_escapes: "succeeds run sp \<Longrightarrow> escapes run sp = None"
  by (simp add: succeeds_def escapes_def)

lemma render_one_eq:
  "render_one run svg_path (imgs, tr) sp =
     ((imgs @ (if succeeds run sp then [image_of sp] else []), tr @ step_events run sp),
      escapes run sp)"
  by (cases sp)
     (auto simp: Let_def succeeds_def escapes_def step_events_def invocation_def image_of_def
           generated_line_def skipped_line_def split: sum.splits)

lemma render_loop_eq:
  "render_loop run svg_path (imgs, tr) xs =
     ((imgs @ map image_of (filter (succeeds run) (attempted run xs)),
       tr @ concat (map (step_events run) (attempted run xs))),
      first_escape run xs)"
proof (induction xs arbitrary: imgs tr)
  case Nil
  show ?case by simp
next
  case (Cons sp xs)
  show ?case
  proof (cases "escapes run sp")
    case None
    then show ?thesis
      by (simp add: render_one_eq Cons.IH del: render_one.simps)
  next
    case (Some e)
    then have "\<not> succeeds run sp" using succeeds_escapes [of run sp] by auto
    with Some show ?thesis
      by (simp add: render_one_eq del: render_one.simps)
  qed
qed

lemma first_escape_None: "first_escape run xs = None \<longleftrightarrow> (\<forall>sp \<in> set xs. escapes run sp = None)"
  by (induction xs) (auto split: option.splits)

lemma attempted_all: "\<forall>sp \<in> set xs. escapes run sp = None \<Longrightarrow> attempted run xs = xs"
  by (induction xs) simp_all

lemma attempted_take: "\<exists>n. attempted run xs = take n xs"
proof (induction xs)
  case Nil
  show ?case by simp
next
  case (Cons sp xs)
  then obtain n where n: "attempted run xs = take n xs" by blast
  show ?case
  proof (cases "escapes run sp = None")
    case True
    with n have "attempted run (sp # xs) = take (Suc n) (sp # xs)" by simp
    then show ?thesis by blast
  next
    case False
    then have "attempted run (sp # xs) = take (Suc 0) (sp # xs)" by auto
    then show ?thesis by blast
  qed
qed

lemma returns_iff: "returns run \<longleftrightarrow> (\<forall>sp \<in> set SIZES. escapes run sp = None)"
  by (simp add: returns_def main_def rendered_def render_all_def render_loop_eq
        first_escape_None [symmetric] split: option.splits)

lemma returns_attempted: "returns run \<Longrightarrow> attempted run SIZES = SIZES"
  by (simp add: returns_iff attempted_all)

lemma images_rendered:
  "fst (fst (rendered run)) = map image_of (filter (succeeds run) (attempted run SIZES))"
  by (simp add: rendered_def render_all_def render_loop_eq)

lemma trace_eq:
  "trace run =
     [FileWrite svg_path SVG_CONTENT, Print (''Created SVG at '' @ svg_path),
      Makedirs ICON_DIR True]
     @ concat (map (step_events run) (attempted run SIZES))
     @ (if returns run
        then [FileWrite contents_path (json_dump (contents run)),
              Print (''Updated '' @ contents_path)]
        else [])"
  by (simp add: trace_def returns_def main_def rendered_def render_all_def render_loop_eq
        split: option.splits)

lemma raised_eq: "snd (main run) = first_escape run SIZES"
  by (simp add: main_def rendered_def render_all_def render_loop_eq split: option.splits)

lemma invocations_append: "invocations (xs @ ys) = invocations xs @ invocations ys"
  by (induction xs rule: invocations.induct) simp_all

lemma printed_append: "printed (xs @ ys) = printed xs @ printed ys"
  by (induction xs rule: printed.induct) simp_all

lemma invocations_steps: "invocations (concat (map (step_events run) xs)) = map invocation xs"
  by (induction xs) (simp_all add: step_events_def invocations_append)

lemma printed_steps:
  "\<forall>sp \<in> set xs. escapes run sp = None \<Longrightarrow>
     printed (concat (map (step_events run) xs))
       = map (\<lambda>sp. if succeeds run sp then generated_line sp else skipped_line sp) xs"
  by (induction xs) (simp_all add: step_events_def printed_append)

lemma invocations_trace: "invocations (trace run) = map invocation (attempted run SIZES)"
  by (simp add: trace_eq invocations_append invocations_steps)

lemma printed_trace:
  "returns run \<Longrightarrow>
   printed (trace run) =
     (''Created SVG at '' @ svg_path)
     # map (\<lambda>sp. if succeeds run sp then generated_line sp else skipped_line sp) SIZES
     @ [''Updated '' @ contents_path]"
  by (simp add: trace_eq printed_append printed_steps returns_attempted returns_iff)

lemma fs_after_trace:
  "returns run \<Longrightarrow> fs_after (trace run) fs contents_path = Some (json_dump (contents run))"
  by (simp add: trace_eq fs_after_def)

lemma existing_eq:
  "set (map (\<lambda>(_, s, sc). (s, sc)) (map image_of (filter P xs))) = {sp \<in> set xs. P sp}"
  by (auto simp: image_of_def image_iff split: prod.splits)

lemma manifest_images_attempted:
  "manifest_images run =
     map (\<lambda>sp. produced_entry (image_of sp)) (filter (succeeds run) (attempted run SIZES))
     @ map missing_entry
         (filter (\<lambda>p. p \<notin> {sp \<in> set (attempted run SIZES). succeeds run sp}) SIZES)"
proof -
  let ?imgs = "map image_of (filter (succeeds run) (attempted run SIZES))"
  have "build_contents ?imgs =
     JDict [(''images'', JList (map produced_entry ?imgs
               @ map missing_entry
                   (filter (\<lambda>p. p \<notin> {sp \<in> set (attempted run SIZES). succeeds run sp}) SIZES))),
            (''info'', JDict [(''author'', JString ''xcode''), (''version'', JInt 1)])]"
    by (simp only: build_contents_def Let_def existing_eq)
  then show ?thesis
    by (simp add: manifest_images_def contents_def images_rendered o_def)
qed

lemma manifest_images_eq:
  assumes "returns run"
  shows "manifest_images run =
     map (\<lambda>sp. produced_entry (image_of sp)) (filter (succeeds run) SIZES)
     @ map missing_entry (filter (\<lambda>sp. \<not> succeeds run sp) SIZES)"
proof -
  have "filter (\<lambda>p. p \<notin> {sp \<in> set SIZES. succeeds run sp}) SIZES
          = filter (\<lambda>sp. \<not> succeeds run sp) SIZES"
    by (rule filter_cong) auto
  then show ?thesis
    by (simp add: manifest_images_attempted returns_attempted [OF assms])
qed

lemma entry_fields:
  "dict_get (missing_entry (sz, sc)) ''filename'' = None"
  "dict_get (produced_entry (image_of (sz, sc))) ''filename'' = Some (JString (icon_filename sz sc))"
  "dict_get (missing_entry (sz, sc)) ''size'' = Some (JString (str sz @ ''x'' @ str sz))"
  "dict_get (produced_entry (image_of (sz, sc))) ''size'' = Some (JString (str sz @ ''x'' @ str sz))"
  "dict_get (missing_entry (sz, sc)) ''scale'' = Some (JString (str sc @ ''x''))"
  "dict_get (produced_entry (image_of (sz, sc))) ''scale'' = Some (JString (str sc @ ''x''))"
  "dict_get (missing_entry (sz, sc)) ''idiom'' = Some (JString ''mac'')"
  "dict_get (produced_entry (image_of (sz, sc))) ''idiom'' = Some (JString ''mac'')"
  by (simp_all add: missing_entry_def produced_entry_def image_of_def)

lemma has_filename_entries:
  "has_filename (produced_entry (image_of sp))" "\<not> has_filename (missing_entry sp)"
  by (cases sp; simp add: has_filename_def entry_fields)+

lemma describes_entries:
  "describes (missing_entry sp) sp' = describes (produced_entry (image_of sp)) sp'"
  by (cases sp; cases sp'; simp add: describes_def entry_fields)

lemma describes_missing_iff:
  "sp \<in> set SIZES \<Longrightarrow> sp' \<in> set SIZES \<Longrightarrow> describes (missing_entry sp) sp' = (sp = sp')"
  unfolding SIZES_def
  by (auto simp: describes_def entry_fields str_values)

lemma icon_filename_values:
  "map (\<lambda>(sz, scale). icon_filename sz scale) SIZES =
     [''icon_16x16@1x.png'', ''icon_16x16@2x.png'', ''icon_32x32@1x.png'', ''icon_32x32@2x.png'',
      ''icon_128x128@1x.png'', ''icon_128x128@2x.png'', ''icon_256x256@1x.png'',
      ''icon_256x256@2x.png'', ''icon_512x512@1x.png'', ''icon_512x512@2x.png'']"
  by (simp add: SIZES_def icon_filename_def str_values)

lemma invocation_eq:
  "invocation (sz, scale) =
     [''rsvg-convert'', ''-w'', str (sz * scale), ''-h'', str (sz * scale), ''-o'',
      ICON_DIR @ ''/'' @ ''icon_'' @ str sz @ ''x'' @ str sz @ ''@'' @ str scale @ ''x.png'',
      ''/tmp/enclave_icon.svg'']"
  using path_join_ICON_DIR [of "str sz @ ''x'' @ str sz @ ''@'' @ str scale @ ''x.png''"]
  by (simp add: invocation_def rsvg_argv_def icon_filename_def svg_path_def)

lemma distinct_invocations: "distinct (map invocation SIZES)"
  by (simp add: SIZES_def invocation_eq str_values)

lemma inj_on_invocation: "inj_on invocation (set SIZES)"
  using distinct_invocations by (simp add: distinct_map)

lemma distinct_attempted: "distinct (map invocation (attempted run SIZES))"
proof -
  obtain n where "attempted run SIZES = take n SIZES"
    using attempted_take by blast
  then show ?thesis
    using distinct_invocations by (simp add: take_map [symmetric])
qed

section \<open>The converters used as inputs\<close>

lemma outcomes_examples:
  "succeeds converter_ok sp" "\<not> succeeds converter_absent sp"
  "escapes converter_ok sp = None" "escapes converter_absent sp = None"
  "escapes (converter_failing_on sp' rc) sp = None"
  by (simp_all add: succeeds_def escapes_def converter_ok_def converter_absent_def
        converter_failing_on_def)

lemma returns_examples:
  "returns converter_ok" "returns converter_absent" "returns (converter_failing_on sp rc)"
  by (simp_all add: returns_iff outcomes_examples)

lemma succeeds_failing_on:
  "sp \<in> set SIZES \<Longrightarrow> sp' \<in> set SIZES \<Longrightarrow> rc \<noteq> 0 \<Longrightarrow>
     succeeds (converter_failing_on sp rc) sp' = (sp' \<noteq> sp)"
  using inj_on_invocation
  by (auto simp: succeeds_def converter_failing_on_def inj_on_def)

lemma outcomes_garbled_on:
  assumes "sp \<in> set SIZES" "sp' \<in> set SIZES"
  shows "succeeds (converter_garbled_on sp rc) sp' = (sp' \<noteq> sp)"
    and "escapes (converter_garbled_on sp rc) sp'
           = (if sp' = sp then Some UnicodeDecodeError else None)"
  using inj_on_invocation assms
  by (auto simp: succeeds_def escapes_def converter_garbled_on_def inj_on_def)

lemma attempted_garbled_on_32_1:
  "attempted (converter_garbled_on (32, 1) 1) SIZES = [(16, 1), (16, 2), (32, 1)]"
proof -
  have "(32, 1) \<in> set SIZES" by (simp add: SIZES_def)
  then have "\<forall>sp' \<in> set SIZES. escapes (converter_garbled_on (32, 1) 1) sp'
           = (if sp' = (32, 1) then Some UnicodeDecodeError else None)"
    by (simp add: outcomes_garbled_on)
  then show ?thesis by (simp add: SIZES_def)
qed

lemma not_returns_garbled_on_32_1:
  "snd (main (converter_garbled_on (32, 1) 1)) = Some UnicodeDecodeError"
proof -
  have "(32, 1) \<in> set SIZES" by (simp add: SIZES_def)
  then have "\<forall>sp' \<in> set SIZES. escapes (converter_garbled_on (32, 1) 1) sp'
           = (if sp' = (32, 1) then Some UnicodeDecodeError else None)"
    by (simp add: outcomes_garbled_on)
  then show ?thesis by (simp add: raised_eq SIZES_def)
qed

text \<open>The ten argument vectors are pairwise distinct, so every assignment of processes to
  the pairs of \<open>SIZES\<close> is the behaviour of some converter: a statement about every
  converter is a statement about every such assignment.\<close>

lemma every_assignment_is_a_converter:
  "\<exists>run :: converter. \<forall>sp \<in> set SIZES. run (invocation sp) = outcome sp"
proof -
  let ?run = "\<lambda>argv. outcome (the_inv_into (set SIZES) invocation argv)"
  have "\<forall>sp \<in> set SIZES. ?run (invocation sp) = outcome sp"
    using inj_on_invocation by (simp add: the_inv_into_f_f)
  then show ?thesis by (rule exI [of _ ?run])
qed

lemma filter_eq_one:
  "distinct xs \<Longrightarrow> a \<in> set xs \<Longrightarrow> filter (\<lambda>x. x = a \<and> Q x) xs = (if Q a then [a] else [])"
  by (induction xs) (auto simp: filter_empty_conv)

lemma invoked_once:
  "sp \<in> set SIZES \<Longrightarrow> length (filter (\<lambda>argv. argv = invocation sp) (map invocation SIZES)) = 1"
proof -
  assume "sp \<in> set SIZES"
  then have "invocation sp \<in> set (map invocation SIZES)" by simp
  with distinct_invocations
  have "filter (\<lambda>argv. argv = invocation sp \<and> True) (map invocation SIZES) = [invocation sp]"
    by (simp only: filter_eq_one if_True)
  then show ?thesis by simp
qed

lemma invocations_garbled_on_32_1:
  "invocations (trace (converter_garbled_on (32, 1) 1))
     = [invocation (16, 1), invocation (16, 2), invocation (32, 1)]"
  by (simp add: invocations_trace attempted_garbled_on_32_1)

section \<open>The converter invocations\<close>

text \<open>
  Claim C6, as the code has it. The run invokes the converter on the argument vectors of
  the pairs of \<open>SIZES\<close> that the loop reaches, in order and each one once (the vectors
  are pairwise distinct): \<^verbatim>\<open>rsvg-convert -w N -h N -o DIR/icon_BxB@Sx.png SVG\<close> for the
  pair \<open>(B, S)\<close>, with \<open>N = B * S\<close> for both the width and the height and \<open>DIR\<close> the
  icon directory. The pairs reached are a prefix of \<open>SIZES\<close>: all up to and including
  the first whose invocation raises an exception other than \<^verbatim>\<open>FileNotFoundError\<close>,
  and all ten when the run returns. The directory is created (\<^verbatim>\<open>os.makedirs\<close> with
  \<^verbatim>\<open>exist_ok=True\<close>) at a point of the run before which no invocation has happened.
\<close>

theorem converter_invoked_once_per_size_reached:
  "invocations (trace run) =
     map (\<lambda>(sz, scale).
            [''rsvg-convert'', ''-w'', str (sz * scale), ''-h'', str (sz * scale), ''-o'',
             ICON_DIR @ ''/'' @ ''icon_'' @ str sz @ ''x'' @ str sz @ ''@'' @ str scale @ ''x.png'',
             ''/tmp/enclave_icon.svg'']) (attempted run SIZES)
   \<and> distinct (invocations (trace run))
   \<and> (\<exists>n. attempted run SIZES = take n SIZES)
   \<and> (returns run \<longrightarrow> attempted run SIZES = SIZES)
   \<and> (\<exists>pre post. trace run = pre @ Makedirs ICON_DIR True # post \<and> invocations pre = [])"
proof (intro conjI)
  have "invocation = (\<lambda>(sz, scale).
            [''rsvg-convert'', ''-w'', str (sz * scale), ''-h'', str (sz * scale), ''-o'',
             ICON_DIR @ ''/'' @ ''icon_'' @ str sz @ ''x'' @ str sz @ ''@'' @ str scale @ ''x.png'',
             ''/tmp/enclave_icon.svg''])"
    by (rule ext) (simp add: invocation_eq split: prod.splits)
  then show "invocations (trace run) =
     map (\<lambda>(sz, scale).
            [''rsvg-convert'', ''-w'', str (sz * scale), ''-h'', str (sz * scale), ''-o'',
             ICON_DIR @ ''/'' @ ''icon_'' @ str sz @ ''x'' @ str sz @ ''@'' @ str scale @ ''x.png'',
             ''/tmp/enclave_icon.svg'']) (attempted run SIZES)"
    using invocations_trace [of run] by simp
  show "distinct (invocations (trace run))"
    by (simp only: invocations_trace distinct_attempted)
  show "\<exists>n. attempted run SIZES = take n SIZES"
    by (rule attempted_take)
  show "returns run \<longrightarrow> attempted run SIZES = SIZES"
    by (simp add: returns_attempted)
  let ?pre = "[FileWrite svg_path SVG_CONTENT, Print (''Created SVG at '' @ svg_path)]"
  let ?post = "concat (map (step_events run) (attempted run SIZES))
     @ (if returns run
        then [FileWrite contents_path (json_dump (contents run)),
              Print (''Updated '' @ contents_path)]
        else [])"
  have "trace run = ?pre @ Makedirs ICON_DIR True # ?post"
    by (simp only: trace_eq) simp
  moreover have "invocations ?pre = []" by simp
  ultimately show "\<exists>pre post. trace run = pre @ Makedirs ICON_DIR True # post \<and> invocations pre = []"
    by blast
qed

theorem converter_invoked_once_per_size_reached_witness:
  "attempted (converter_failing_on (16, 1) 1) SIZES = SIZES
   \<and> length (invocations (trace (converter_failing_on (16, 1) 1))) = 10
   \<and> distinct (invocations (trace (converter_failing_on (16, 1) 1)))"
proof -
  let ?run = "converter_failing_on (16, 1) 1"
  note inst = converter_invoked_once_per_size_reached [of ?run]
  have a: "attempted ?run SIZES = SIZES"
    using inst returns_examples(3) [of "(16, 1)" 1] by blast
  have "invocations (trace ?run) =
     map (\<lambda>(sz, scale).
            [''rsvg-convert'', ''-w'', str (sz * scale), ''-h'', str (sz * scale), ''-o'',
             ICON_DIR @ ''/'' @ ''icon_'' @ str sz @ ''x'' @ str sz @ ''@'' @ str scale @ ''x.png'',
             ''/tmp/enclave_icon.svg'']) (attempted ?run SIZES)"
    using inst by (rule conjunct1)
  then have b: "length (invocations (trace ?run)) = 10"
    by (simp add: a length_SIZES)
  have c: "distinct (invocations (trace ?run))"
    using inst by blast
  from a b c show ?thesis by (intro conjI)
qed

text \<open>
  Claim C6 as it is written fails when the converter, on the third pair \<open>(32, 1)\<close>, exits
  with output that does not decode: \<^verbatim>\<open>subprocess.run\<close> raises
  \<^verbatim>\<open>UnicodeDecodeError\<close>, the run ends there, and the converter has been invoked for
  the first three pairs only; it is never invoked for \<open>(512, 2)\<close>.
\<close>

theorem later_sizes_never_invoked:
  "invocations (trace (converter_garbled_on (32, 1) 1))
     = [invocation (16, 1), invocation (16, 2), invocation (32, 1)]
   \<and> length (filter (\<lambda>argv. argv = invocation (512, 2))
               (invocations (trace (converter_garbled_on (32, 1) 1)))) = 0"
  by (simp add: invocations_garbled_on_32_1 invocation_eq str_values)

section \<open>The entries of the manifest\<close>

lemma describes_self: "describes (missing_entry sp) sp"
  by (cases sp) (simp add: describes_def entry_fields)

lemma describes_produced_self: "describes (produced_entry (image_of sp)) sp"
  using describes_self [of sp] by (simp add: describes_entries)

lemma entries_describing:
  assumes "returns run" "sp \<in> set SIZES"
  shows "filter (\<lambda>e. describes e sp) (manifest_images run) =
           [if succeeds run sp then produced_entry (image_of sp) else missing_entry sp]"
proof -
  have a: "filter (\<lambda>x. succeeds run x \<and> describes (produced_entry (image_of x)) sp) SIZES
             = filter (\<lambda>x. x = sp \<and> succeeds run x) SIZES"
    using assms(2) by (intro filter_cong refl) (auto simp: describes_entries [symmetric] describes_missing_iff)
  have b: "filter (\<lambda>x. \<not> succeeds run x \<and> describes (missing_entry x) sp) SIZES
             = filter (\<lambda>x. x = sp \<and> \<not> succeeds run x) SIZES"
    using assms(2) by (intro filter_cong refl) (auto simp: describes_missing_iff)
  show ?thesis
    using assms(2)
    by (simp add: manifest_images_eq [OF assms(1)] filter_map o_def a b filter_eq_one distinct_SIZES)
qed

lemma length_manifest_images: "returns run \<Longrightarrow> length (manifest_images run) = 10"
  using sum_length_filter_compl [of "succeeds run" SIZES]
  by (simp add: manifest_images_eq length_SIZES)

lemma set_manifest_images:
  "returns run \<Longrightarrow>
   set (manifest_images run) =
     (\<lambda>sp. if succeeds run sp then produced_entry (image_of sp) else missing_entry sp) ` set SIZES"
  by (auto simp: manifest_images_eq image_iff)

lemma filter_has_filename:
  assumes "returns run"
  shows "filter has_filename (manifest_images run)
     = map (\<lambda>sp. produced_entry (image_of sp)) (filter (succeeds run) SIZES)"
    and "filter (\<lambda>e. \<not> has_filename e) (manifest_images run)
     = map missing_entry (filter (\<lambda>sp. \<not> succeeds run sp) SIZES)"
  by (simp_all add: manifest_images_eq [OF assms] filter_map o_def has_filename_entries)

lemma filter_succeeds_failing_on:
  assumes "sp \<in> set SIZES" "rc \<noteq> 0"
  shows "filter (succeeds (converter_failing_on sp rc)) SIZES = filter (\<lambda>sp'. sp' \<noteq> sp) SIZES"
    and "filter (\<lambda>sp'. \<not> succeeds (converter_failing_on sp rc) sp') SIZES
           = filter (\<lambda>sp'. sp' = sp) SIZES"
  using assms by (auto intro!: filter_cong simp: succeeds_failing_on)

lemma manifest_images_failing_on_16_1:
  "manifest_images (converter_failing_on (16, 1) 1) =
     map (\<lambda>sp. produced_entry (image_of sp)) (tl SIZES) @ [missing_entry (16, 1)]"
proof -
  have "(16, 1) \<in> set SIZES" by (simp add: SIZES_def)
  then show ?thesis
    by (simp add: manifest_images_eq returns_examples filter_succeeds_failing_on)
       (simp add: SIZES_def)
qed

section \<open>One entry for every size\<close>

text \<open>
  Claim C2. In a run that returns, so that the manifest is written, the list under
  \<^verbatim>\<open>images\<close> has ten entries; for every pair of \<open>SIZES\<close> exactly one entry has the
  \<^verbatim>\<open>size\<close> and \<^verbatim>\<open>scale\<close> strings of that pair; and every entry describes a pair of
  \<open>SIZES\<close> and has the key \<^verbatim>\<open>filename\<close> exactly when the converter succeeded on that
  pair, so that the entries with the key are as many as the pairs produced and those
  without it as many as the pairs missing.
\<close>

theorem manifest_one_entry_per_size:
  assumes "returns run"
  shows "length (manifest_images run) = 10
   \<and> (\<forall>sp \<in> set SIZES. length (filter (\<lambda>e. describes e sp) (manifest_images run)) = 1)
   \<and> (\<forall>e \<in> set (manifest_images run).
         \<exists>sp \<in> set SIZES. describes e sp \<and> has_filename e = succeeds run sp)
   \<and> length (filter has_filename (manifest_images run)) = length (filter (succeeds run) SIZES)
   \<and> length (filter (\<lambda>e. \<not> has_filename e) (manifest_images run))
       = length (filter (\<lambda>sp. \<not> succeeds run sp) SIZES)"
proof (intro conjI ballI)
  show "length (manifest_images run) = 10"
    using assms by (rule length_manifest_images)
next
  fix sp assume "sp \<in> set SIZES"
  then show "length (filter (\<lambda>e. describes e sp) (manifest_images run)) = 1"
    by (simp add: entries_describing [OF assms])
next
  fix e assume "e \<in> set (manifest_images run)"
  then obtain sp where sp: "sp \<in> set SIZES"
    and e: "e = (if succeeds run sp then produced_entry (image_of sp) else missing_entry sp)"
    by (auto simp: set_manifest_images [OF assms])
  have "describes e sp"
    using e describes_self [of sp] by (simp add: describes_entries [symmetric])
  moreover have "has_filename e = succeeds run sp"
    using e by (simp add: has_filename_entries)
  ultimately show "\<exists>sp \<in> set SIZES. describes e sp \<and> has_filename e = succeeds run sp"
    using sp by blast
next
  show "length (filter has_filename (manifest_images run)) = length (filter (succeeds run) SIZES)"
    by (simp add: filter_has_filename [OF assms])
next
  show "length (filter (\<lambda>e. \<not> has_filename e) (manifest_images run))
       = length (filter (\<lambda>sp. \<not> succeeds run sp) SIZES)"
    by (simp add: filter_has_filename [OF assms])
qed

theorem manifest_one_entry_per_size_witness:
  "length (filter (\<lambda>e. describes e (16, 1)) (manifest_images (converter_failing_on (16, 1) 1))) = 1
   \<and> describes (last (manifest_images (converter_failing_on (16, 1) 1))) (16, 1)
   \<and> has_filename (last (manifest_images (converter_failing_on (16, 1) 1)))
       = succeeds (converter_failing_on (16, 1) 1) (16, 1)
   \<and> length (filter has_filename (manifest_images (converter_failing_on (16, 1) 1))) = 9"
proof -
  let ?run = "converter_failing_on (16, 1) 1"
  have ret: "returns ?run" by (rule returns_examples)
  note inst = manifest_one_entry_per_size [OF ret]
  have in_sizes: "(16, 1) \<in> set SIZES" by (simp add: SIZES_def)
  have one: "length (filter (\<lambda>e. describes e (16, 1)) (manifest_images ?run)) = 1"
    using inst in_sizes by blast
  have last_eq: "last (manifest_images ?run) = missing_entry (16, 1)"
    by (simp add: manifest_images_failing_on_16_1)
  have "length (filter (succeeds ?run) SIZES) = 9"
    using in_sizes by (simp add: filter_succeeds_failing_on) (simp add: SIZES_def)
  then have nine: "length (filter has_filename (manifest_images ?run)) = 9"
    using inst by simp
  show ?thesis
    using one nine last_eq in_sizes
    by (simp add: describes_self has_filename_entries succeeds_failing_on)
qed

section \<open>The order of the entries\<close>

lemma manifest_images_map:
  "returns run \<Longrightarrow>
   manifest_images run =
     map (\<lambda>sp. if succeeds run sp then produced_entry (image_of sp) else missing_entry sp)
       (filter (succeeds run) SIZES @ filter (\<lambda>sp. \<not> succeeds run sp) SIZES)"
  by (simp add: manifest_images_eq)

lemma describes_entry_iff:
  "sp \<in> set SIZES \<Longrightarrow> sp' \<in> set SIZES \<Longrightarrow>
     describes (if succeeds run sp then produced_entry (image_of sp) else missing_entry sp) sp'
       = (sp = sp')"
  by (simp add: describes_entries [symmetric] describes_missing_iff)

lemma partition_is_identity_iff:
  "filter P xs @ filter (\<lambda>x. \<not> P x) xs = xs
     \<longleftrightarrow> (\<exists>ps ms. xs = ps @ ms \<and> (\<forall>x \<in> set ps. P x) \<and> (\<forall>x \<in> set ms. \<not> P x))"
proof
  assume "filter P xs @ filter (\<lambda>x. \<not> P x) xs = xs"
  then have "xs = filter P xs @ filter (\<lambda>x. \<not> P x) xs" by simp
  moreover have "\<forall>x \<in> set (filter P xs). P x" by simp
  moreover have "\<forall>x \<in> set (filter (\<lambda>x. \<not> P x) xs). \<not> P x" by simp
  ultimately show "\<exists>ps ms. xs = ps @ ms \<and> (\<forall>x \<in> set ps. P x) \<and> (\<forall>x \<in> set ms. \<not> P x)"
    by blast
next
  assume "\<exists>ps ms. xs = ps @ ms \<and> (\<forall>x \<in> set ps. P x) \<and> (\<forall>x \<in> set ms. \<not> P x)"
  then obtain ps ms where xs: "xs = ps @ ms" and ps: "\<forall>x \<in> set ps. P x"
    and ms: "\<forall>x \<in> set ms. \<not> P x" by blast
  have "filter P ps = ps" "filter P ms = []"
       "filter (\<lambda>x. \<not> P x) ps = []" "filter (\<lambda>x. \<not> P x) ms = ms"
    using ps ms by (simp_all add: filter_id_conv filter_empty_conv)
  then show "filter P xs @ filter (\<lambda>x. \<not> P x) xs = xs"
    by (simp add: xs)
qed

lemma in_fixed_order_iff_partition:
  assumes "returns run"
  shows "list_all2 describes (manifest_images run) SIZES
     \<longleftrightarrow> filter (succeeds run) SIZES @ filter (\<lambda>sp. \<not> succeeds run sp) SIZES = SIZES"
proof -
  let ?ys = "filter (succeeds run) SIZES @ filter (\<lambda>sp. \<not> succeeds run sp) SIZES"
  let ?E = "\<lambda>sp. if succeeds run sp then produced_entry (image_of sp) else missing_entry sp"
  have "list_all2 describes (manifest_images run) SIZES
          = list_all2 (\<lambda>a b. describes (?E a) b) ?ys SIZES"
    by (simp only: manifest_images_map [OF assms] list_all2_map1)
  also have "\<dots> = list_all2 (=) ?ys SIZES"
  proof (rule list.rel_cong)
    fix a b assume "a \<in> set ?ys" and b: "b \<in> set SIZES"
    then have "a \<in> set SIZES" by auto
    then show "describes (?E a) b = (a = b)"
      using b by (rule describes_entry_iff)
  qed simp_all
  also have "\<dots> = (?ys = SIZES)"
    by (simp only: list_all2_eq)
  finally show ?thesis .
qed

text \<open>
  Claim C1, as the code has it. In a run that returns, the list under \<^verbatim>\<open>images\<close> is
  in the order of \<open>SIZES\<close>, its i-th entry describing the i-th pair, exactly when in
  \<open>SIZES\<close> no pair on which the converter failed stands before one on which it
  succeeded: \<open>SIZES\<close> is a run of produced pairs followed by a run of missing pairs.
  That covers the converter succeeding on every pair and failing on every pair.
\<close>

theorem manifest_in_fixed_order_iff:
  assumes "returns run"
  shows "list_all2 describes (manifest_images run) SIZES
     \<longleftrightarrow> (\<exists>ps ms. SIZES = ps @ ms \<and> (\<forall>sp \<in> set ps. succeeds run sp)
                    \<and> (\<forall>sp \<in> set ms. \<not> succeeds run sp))"
  by (simp only: in_fixed_order_iff_partition [OF assms] partition_is_identity_iff)

theorem manifest_in_fixed_order_iff_witness:
  "list_all2 describes (manifest_images converter_ok) SIZES
   \<and> list_all2 describes (manifest_images converter_absent) SIZES
   \<and> list_all2 describes (manifest_images (converter_failing_on (512, 2) 1)) SIZES
   \<and> \<not> list_all2 describes (manifest_images (converter_failing_on (16, 1) 1)) SIZES"
proof (intro conjI)
  have "SIZES = SIZES @ [] \<and> (\<forall>sp \<in> set SIZES. succeeds converter_ok sp)
          \<and> (\<forall>sp \<in> set []. \<not> succeeds converter_ok sp)"
    by (simp add: outcomes_examples)
  then show "list_all2 describes (manifest_images converter_ok) SIZES"
    unfolding manifest_in_fixed_order_iff [OF returns_examples(1)] by blast
next
  have "SIZES = [] @ SIZES \<and> (\<forall>sp \<in> set []. succeeds converter_absent sp)
          \<and> (\<forall>sp \<in> set SIZES. \<not> succeeds converter_absent sp)"
    by (simp add: outcomes_examples)
  then show "list_all2 describes (manifest_images converter_absent) SIZES"
    unfolding manifest_in_fixed_order_iff [OF returns_examples(2)] by blast
next
  let ?run = "converter_failing_on (512, 2) 1"
  have "SIZES = butlast SIZES @ [(512, 2)]" by (simp add: SIZES_def)
  moreover have "\<forall>sp \<in> set (butlast SIZES). succeeds ?run sp"
    by (simp add: SIZES_def succeeds_failing_on)
  moreover have "\<forall>sp \<in> set [(512, 2)]. \<not> succeeds ?run sp"
    by (simp add: SIZES_def succeeds_failing_on)
  ultimately show "list_all2 describes (manifest_images ?run) SIZES"
    unfolding manifest_in_fixed_order_iff [OF returns_examples(3) [of "(512, 2)" 1]] by blast
next
  let ?run = "converter_failing_on (16, 1) 1"
  have "\<not> (\<exists>ps ms. SIZES = ps @ ms \<and> (\<forall>sp \<in> set ps. succeeds ?run sp)
                    \<and> (\<forall>sp \<in> set ms. \<not> succeeds ?run sp))"
  proof
    assume "\<exists>ps ms. SIZES = ps @ ms \<and> (\<forall>sp \<in> set ps. succeeds ?run sp)
                    \<and> (\<forall>sp \<in> set ms. \<not> succeeds ?run sp)"
    then obtain ps ms where eq: "SIZES = ps @ ms" and ps: "\<forall>sp \<in> set ps. succeeds ?run sp"
      and ms: "\<forall>sp \<in> set ms. \<not> succeeds ?run sp" by blast
    have f: "\<not> succeeds ?run (16, 1)" and s: "succeeds ?run (16, 2)"
      by (simp_all add: SIZES_def succeeds_failing_on)
    have "ps = []"
    proof (cases ps)
      case (Cons p ps')
      with eq have "p = (16, 1)" by (simp add: SIZES_def)
      with Cons ps f show ?thesis by simp
    qed simp
    with eq have "ms = SIZES" by simp
    then have "(16, 2) \<in> set ms" by (simp add: SIZES_def)
    with ms s show False by blast
  qed
  then show "\<not> list_all2 describes (manifest_images ?run) SIZES"
    unfolding manifest_in_fixed_order_iff [OF returns_examples(3) [of "(16, 1)" 1]] .
qed

text \<open>
  Claim C1 as it is written fails when the converter fails on the first pair only: the
  first entry of the list then describes the second pair, \<open>(16, 2)\<close>, and not the
  first pair of \<open>SIZES\<close>.
\<close>

theorem first_entry_not_first_size:
  "describes (manifest_images (converter_failing_on (16, 1) 1) ! 0) (16, 2)
   \<and> \<not> describes (manifest_images (converter_failing_on (16, 1) 1) ! 0) (SIZES ! 0)"
proof -
  have "manifest_images (converter_failing_on (16, 1) 1) ! 0 = produced_entry (image_of (16, 2))"
    by (simp add: manifest_images_failing_on_16_1) (simp add: SIZES_def)
  moreover have "SIZES ! 0 = (16, 1)" by (simp add: SIZES_def)
  moreover have "(16, 1) \<in> set SIZES" "(16, 2) \<in> set SIZES" by (simp_all add: SIZES_def)
  ultimately show ?thesis
    by (simp add: describes_entries [symmetric] describes_missing_iff)
qed

section \<open>Produced and missing entries\<close>

text \<open>
  Claim C9. In a run that returns, the list under \<^verbatim>\<open>images\<close> is the entries with the
  key \<^verbatim>\<open>filename\<close> followed by the entries without it; the first part describes the
  pairs on which the converter succeeded and the second part the pairs on which it did
  not, each part in the order of \<open>SIZES\<close>.
\<close>

theorem produced_entries_before_missing:
  assumes "returns run"
  shows "\<exists>ps ms. manifest_images run = ps @ ms
     \<and> list_all has_filename ps
     \<and> list_all (\<lambda>e. \<not> has_filename e) ms
     \<and> list_all2 describes ps (filter (succeeds run) SIZES)
     \<and> list_all2 describes ms (filter (\<lambda>sp. \<not> succeeds run sp) SIZES)"
proof (intro exI conjI)
  show "manifest_images run =
     map (\<lambda>sp. produced_entry (image_of sp)) (filter (succeeds run) SIZES)
     @ map missing_entry (filter (\<lambda>sp. \<not> succeeds run sp) SIZES)"
    using assms by (rule manifest_images_eq)
  show "list_all has_filename (map (\<lambda>sp. produced_entry (image_of sp)) (filter (succeeds run) SIZES))"
    by (simp add: list_all_iff has_filename_entries)
  show "list_all (\<lambda>e. \<not> has_filename e) (map missing_entry (filter (\<lambda>sp. \<not> succeeds run sp) SIZES))"
    by (simp add: list_all_iff has_filename_entries)
  show "list_all2 describes (map (\<lambda>sp. produced_entry (image_of sp)) (filter (succeeds run) SIZES))
          (filter (succeeds run) SIZES)"
    by (simp add: list_all2_map1 list_all2_same describes_produced_self)
  show "list_all2 describes (map missing_entry (filter (\<lambda>sp. \<not> succeeds run sp) SIZES))
          (filter (\<lambda>sp. \<not> succeeds run sp) SIZES)"
    by (simp add: list_all2_map1 list_all2_same describes_self)
qed

theorem produced_entries_before_missing_witness:
  "\<exists>ps ms. manifest_images (converter_failing_on (16, 1) 1) = ps @ ms
     \<and> list_all has_filename ps
     \<and> list_all (\<lambda>e. \<not> has_filename e) ms
     \<and> list_all2 describes ps (tl SIZES)
     \<and> list_all2 describes ms [(16, 1)]"
proof -
  have "(16, 1) \<in> set SIZES" by (simp add: SIZES_def)
  then have "filter (succeeds (converter_failing_on (16, 1) 1)) SIZES = tl SIZES"
    and "filter (\<lambda>sp. \<not> succeeds (converter_failing_on (16, 1) 1) sp) SIZES = [(16, 1)]"
    by (simp_all add: filter_succeeds_failing_on) (simp_all add: SIZES_def)
  with produced_entries_before_missing [OF returns_examples(3) [of "(16, 1)" 1]]
  show ?thesis by (simp only:)
qed

text \<open>
  Claim C3. In a run that returns, for a pair \<open>(sz, scale)\<close> of \<open>SIZES\<close> the list under
  \<^verbatim>\<open>images\<close> has an entry that describes the pair, and every such entry has under
  \<^verbatim>\<open>filename\<close> the name \<^verbatim>\<open>icon_\<close>, \<open>sz\<close>, \<^verbatim>\<open>x\<close>, \<open>sz\<close>, \<^verbatim>\<open>@\<close>, \<open>scale\<close>,
  \<^verbatim>\<open>x.png\<close> when the invocation for the pair returned the code zero, and has no key
  \<^verbatim>\<open>filename\<close> when the invocation returned another code or the converter was not
  found.
\<close>

theorem filename_iff_converter_succeeds:
  assumes "returns run" and "(sz, scale) \<in> set SIZES"
  shows "(\<exists>e \<in> set (manifest_images run). describes e (sz, scale))
     \<and> (\<forall>e \<in> set (manifest_images run). describes e (sz, scale) \<longrightarrow>
           dict_get e ''filename'' =
             (if subprocess_run (run (invocation (sz, scale))) = Inr 0
              then Some (JString (''icon_'' @ str sz @ ''x'' @ str sz @ ''@'' @ str scale @ ''x.png''))
              else None))"
proof -
  let ?E = "if succeeds run (sz, scale) then produced_entry (image_of (sz, scale))
            else missing_entry (sz, scale)"
  have one: "filter (\<lambda>e. describes e (sz, scale)) (manifest_images run) = [?E]"
    using assms by (rule entries_describing)
  have "set (filter (\<lambda>e. describes e (sz, scale)) (manifest_images run)) = {?E}"
    by (simp only: one list.set)
  then have only: "{e \<in> set (manifest_images run). describes e (sz, scale)} = {?E}"
    by simp
  have field: "dict_get ?E ''filename'' =
             (if subprocess_run (run (invocation (sz, scale))) = Inr 0
              then Some (JString (''icon_'' @ str sz @ ''x'' @ str sz @ ''@'' @ str scale @ ''x.png''))
              else None)"
    by (simp add: entry_fields succeeds_def icon_filename_def)
  from only have "?E \<in> set (manifest_images run)" "describes ?E (sz, scale)" by blast+
  moreover from only have "\<forall>e \<in> set (manifest_images run). describes e (sz, scale) \<longrightarrow> e = ?E"
    by blast
  ultimately show ?thesis using field by blast
qed

theorem filename_iff_converter_succeeds_witness:
  "dict_get (manifest_images (converter_failing_on (16, 1) 1) ! 0) ''filename''
     = Some (JString ''icon_16x16@2x.png'')
   \<and> dict_get (manifest_images (converter_failing_on (16, 1) 1) ! 9) ''filename'' = None"
proof -
  let ?run = "converter_failing_on (16, 1) 1"
  have ret: "returns ?run" by (rule returns_examples)
  have mem: "(16, 1) \<in> set SIZES" "(16, 2) \<in> set SIZES" by (simp_all add: SIZES_def)
  have e0: "manifest_images ?run ! 0 = produced_entry (image_of (16, 2))"
    by (simp add: manifest_images_failing_on_16_1) (simp add: SIZES_def)
  have e9: "manifest_images ?run ! 9 = missing_entry (16, 1)"
    by (simp add: manifest_images_failing_on_16_1) (simp add: SIZES_def nth_append)
  have len: "length (manifest_images ?run) = 10" using ret by (rule length_manifest_images)
  have in0: "manifest_images ?run ! 0 \<in> set (manifest_images ?run)"
    and in9: "manifest_images ?run ! 9 \<in> set (manifest_images ?run)"
    using len by (simp_all only: nth_mem)
  have d0: "describes (manifest_images ?run ! 0) (16, 2)"
    unfolding e0 by (rule describes_produced_self)
  have d9: "describes (manifest_images ?run ! 9) (16, 1)"
    unfolding e9 by (rule describes_self)
  have r0: "subprocess_run (?run (invocation (16, 2))) = Inr 0"
    using succeeds_failing_on [of "(16, 1)" "(16, 2)" 1] mem by (simp add: succeeds_def)
  have r9: "subprocess_run (?run (invocation (16, 1))) \<noteq> Inr 0"
    by (simp add: converter_failing_on_def)
  from filename_iff_converter_succeeds [OF ret mem(2)] in0 d0 r0
  have "dict_get (manifest_images ?run ! 0) ''filename''
          = Some (JString (''icon_'' @ str 16 @ ''x'' @ str 16 @ ''@'' @ str 2 @ ''x.png''))"
    by simp
  moreover from filename_iff_converter_succeeds [OF ret mem(1)] in9 d9 r9
  have "dict_get (manifest_images ?run ! 9) ''filename'' = None"
    by simp
  ultimately show ?thesis by (simp add: str_values)
qed

section \<open>The converter is not installed\<close>

text \<open>
  Claim C4. When every invocation of the converter raises \<^verbatim>\<open>FileNotFoundError\<close>, no
  exception ends the run: it goes through all ten pairs (it attempts the ten
  invocations), prints the \<^verbatim>\<open>Skipped\<close> line for each of the ten pairs between its
  first and its last message, writes \<^verbatim>\<open>Contents.json\<close> and ends with the
  \<^verbatim>\<open>Updated\<close> message; the list under \<^verbatim>\<open>images\<close> has ten entries and none of them
  has the key \<^verbatim>\<open>filename\<close>.
\<close>

theorem converter_unavailable_not_fatal:
  assumes "\<forall>sp \<in> set SIZES. subprocess_run (run (invocation sp)) = Inl FileNotFoundError"
  shows "snd (main run) = None
     \<and> invocations (trace run) = map invocation SIZES
     \<and> printed (trace run) =
         [''Created SVG at '' @ svg_path] @ map skipped_line SIZES @ [''Updated '' @ contents_path]
     \<and> length (map skipped_line SIZES) = 10
     \<and> last (trace run) = Print (''Updated '' @ contents_path)
     \<and> fs_after (trace run) fs contents_path = Some (json_dump (contents run))
     \<and> length (manifest_images run) = 10
     \<and> filter has_filename (manifest_images run) = []"
proof -
  have esc: "\<forall>sp \<in> set SIZES. escapes run sp = None"
    using assms by (simp add: escapes_def)
  then have ret: "returns run" by (simp add: returns_iff)
  have none: "\<forall>sp \<in> set SIZES. \<not> succeeds run sp"
    using assms by (simp add: succeeds_def)
  then have lines: "map (\<lambda>sp. if succeeds run sp then generated_line sp else skipped_line sp) SIZES
                      = map skipped_line SIZES"
    by simp
  have "filter (succeeds run) SIZES = []"
    using none by (simp add: filter_empty_conv)
  then have "filter has_filename (manifest_images run) = []"
    by (simp add: filter_has_filename [OF ret])
  moreover have "printed (trace run) =
         [''Created SVG at '' @ svg_path] @ map skipped_line SIZES @ [''Updated '' @ contents_path]"
    by (simp only: printed_trace [OF ret] lines) simp
  moreover have "last (trace run) = Print (''Updated '' @ contents_path)"
    using ret by (simp add: trace_eq)
  moreover have "snd (main run) = None"
    using ret by (simp add: returns_def)
  moreover have "invocations (trace run) = map invocation SIZES"
    by (simp add: invocations_trace returns_attempted [OF ret])
  ultimately show ?thesis
    by (simp add: fs_after_trace [OF ret] length_manifest_images [OF ret] length_SIZES)
qed

theorem converter_unavailable_not_fatal_witness:
  "printed (trace converter_absent) =
     [''Created SVG at /tmp/enclave_icon.svg'',
      ''Skipped icon_16x16@1x.png - install librsvg: brew install librsvg'',
      ''Skipped icon_16x16@2x.png - install librsvg: brew install librsvg'',
      ''Skipped icon_32x32@1x.png - install librsvg: brew install librsvg'',
      ''Skipped icon_32x32@2x.png - install librsvg: brew install librsvg'',
      ''Skipped icon_128x128@1x.png - install librsvg: brew install librsvg'',
      ''Skipped icon_128x128@2x.png - install librsvg: brew install librsvg'',
      ''Skipped icon_256x256@1x.png - install librsvg: brew install librsvg'',
      ''Skipped icon_256x256@2x.png - install librsvg: brew install librsvg'',
      ''Skipped icon_512x512@1x.png - install librsvg: brew install librsvg'',
      ''Skipped icon_512x512@2x.png - install librsvg: brew install librsvg'',
      ''Updated /Volumes/Code/source/repos/enclave/Enclave/Assets.xcassets/AppIcon.appiconset/Contents.json'']
   \<and> filter has_filename (manifest_images converter_absent) = []
   \<and> length (manifest_images converter_absent) = 10
   \<and> snd (main converter_absent) = None"
proof -
  have "\<forall>sp \<in> set SIZES. subprocess_run (converter_absent (invocation sp)) = Inl FileNotFoundError"
    by (simp add: converter_absent_def)
  from converter_unavailable_not_fatal [OF this, of Map.empty]
  have p: "printed (trace converter_absent) =
         [''Created SVG at '' @ svg_path] @ map skipped_line SIZES @ [''Updated '' @ contents_path]"
    and f: "filter has_filename (manifest_images converter_absent) = []"
    and l: "length (manifest_images converter_absent) = 10"
    and r: "snd (main converter_absent) = None"
    by blast+
  have "map skipped_line SIZES =
     [''Skipped icon_16x16@1x.png - install librsvg: brew install librsvg'',
      ''Skipped icon_16x16@2x.png - install librsvg: brew install librsvg'',
      ''Skipped icon_32x32@1x.png - install librsvg: brew install librsvg'',
      ''Skipped icon_32x32@2x.png - install librsvg: brew install librsvg'',
      ''Skipped icon_128x128@1x.png - install librsvg: brew install librsvg'',
      ''Skipped icon_128x128@2x.png - install librsvg: brew install librsvg'',
      ''Skipped icon_256x256@1x.png - install librsvg: brew install librsvg'',
      ''Skipped icon_256x256@2x.png - install librsvg: brew install librsvg'',
      ''Skipped icon_512x512@1x.png - install librsvg: brew install librsvg'',
      ''Skipped icon_512x512@2x.png - install librsvg: brew install librsvg'']"
    by (simp add: SIZES_def skipped_line_def icon_filename_def str_values)
  moreover have "contents_path =
    ''/Volumes/Code/source/repos/enclave/Enclave/Assets.xcassets/AppIcon.appiconset/Contents.json''"
    by (simp add: contents_path_def path_join_def ICON_DIR_def)
  ultimately show ?thesis
    using p f l r by (simp add: svg_path_def)
qed

section \<open>A failing invocation\<close>

lemma entries_describing_cong:
  assumes "returns run" "returns run'" "sp \<in> set SIZES"
    and "run' (invocation sp) = run (invocation sp)"
  shows "filter (\<lambda>e. describes e sp) (manifest_images run')
           = filter (\<lambda>e. describes e sp) (manifest_images run)"
  using assms by (simp add: entries_describing succeeds_def)

lemma trace_garbled_on_32_1:
  "trace (converter_garbled_on (32, 1) 1) =
     [FileWrite svg_path SVG_CONTENT, Print (''Created SVG at '' @ svg_path),
      Makedirs ICON_DIR True,
      SubprocessRun (invocation (16, 1)), Print (generated_line (16, 1)),
      SubprocessRun (invocation (16, 2)), Print (generated_line (16, 2)),
      SubprocessRun (invocation (32, 1))]"
proof -
  let ?run = "converter_garbled_on (32, 1) 1"
  have mem: "(16, 1) \<in> set SIZES" "(16, 2) \<in> set SIZES" "(32, 1) \<in> set SIZES"
    by (simp_all add: SIZES_def)
  have "\<not> returns ?run"
    using not_returns_garbled_on_32_1 by (simp add: returns_def)
  moreover have "step_events ?run (16, 1) = [SubprocessRun (invocation (16, 1)), Print (generated_line (16, 1))]"
    "step_events ?run (16, 2) = [SubprocessRun (invocation (16, 2)), Print (generated_line (16, 2))]"
    "step_events ?run (32, 1) = [SubprocessRun (invocation (32, 1))]"
    using mem by (simp_all add: step_events_def outcomes_garbled_on)
  ultimately show ?thesis
    by (simp add: trace_eq attempted_garbled_on_32_1)
qed

text \<open>
  Claim C5, as the code has it. When the converter, invoked for a pair of \<open>SIZES\<close>, exits
  with a status other than zero and with output that decodes, the iteration makes that
  one invocation, appends nothing to \<open>images\<close>, prints the \<^verbatim>\<open>Skipped\<close> line and
  raises nothing, so the loop goes on to the next pair. When moreover the run returns,
  the one entry that describes the pair is the entry without the key \<^verbatim>\<open>filename\<close>;
  the run makes the ten invocations in the order of \<open>SIZES\<close>, and the invocation that
  failed occurs once among them (it is not tried again); and the entry of any pair
  depends on the converter only through that pair's own invocation: two converters whose
  runs return and that agree there give the same entry, whatever they do on the other
  pairs.
\<close>

theorem nonzero_status_marks_missing:
  assumes "sp \<in> set SIZES" and "run (invocation sp) = Exited rc True" and "rc \<noteq> 0"
  shows "render_one run svg_path (images, tr) sp
           = ((images, tr @ [SubprocessRun (invocation sp), Print (skipped_line sp)]), None)
     \<and> (returns run \<longrightarrow>
           filter (\<lambda>e. describes e sp) (manifest_images run) = [missing_entry sp]
         \<and> dict_get (missing_entry sp) ''filename'' = None
         \<and> invocations (trace run) = map invocation SIZES
         \<and> length (filter (\<lambda>argv. argv = invocation sp) (invocations (trace run))) = 1
         \<and> (\<forall>sp' \<in> set SIZES. \<forall>run'. returns run' \<longrightarrow>
               run' (invocation sp') = run (invocation sp') \<longrightarrow>
               filter (\<lambda>e. describes e sp') (manifest_images run')
                 = filter (\<lambda>e. describes e sp') (manifest_images run)))"
proof (intro conjI impI)
  have ns: "\<not> succeeds run sp" and esc: "escapes run sp = None"
    using assms(2,3) by (simp_all add: succeeds_def escapes_def)
  then show "render_one run svg_path (images, tr) sp
           = ((images, tr @ [SubprocessRun (invocation sp), Print (skipped_line sp)]), None)"
    by (simp add: render_one_eq step_events_def del: render_one.simps)
  show "dict_get (missing_entry sp) ''filename'' = None"
    by (cases sp) (simp add: entry_fields)
  assume ret: "returns run"
  show "filter (\<lambda>e. describes e sp) (manifest_images run) = [missing_entry sp]"
    using ns assms(1) by (simp add: entries_describing [OF ret])
  show inv: "invocations (trace run) = map invocation SIZES"
    by (simp add: invocations_trace returns_attempted [OF ret])
  show "length (filter (\<lambda>argv. argv = invocation sp) (invocations (trace run))) = 1"
    using assms(1) by (simp only: inv invoked_once)
  show "\<forall>sp' \<in> set SIZES. \<forall>run'. returns run' \<longrightarrow>
               run' (invocation sp') = run (invocation sp') \<longrightarrow>
               filter (\<lambda>e. describes e sp') (manifest_images run')
                 = filter (\<lambda>e. describes e sp') (manifest_images run)"
    using ret by (intro ballI allI impI) (rule entries_describing_cong)
qed

theorem nonzero_status_marks_missing_witness:
  "render_one (converter_failing_on (16, 1) 1) svg_path ([], []) (16, 1)
     = (([], [SubprocessRun (invocation (16, 1)), Print (skipped_line (16, 1))]), None)
   \<and> filter (\<lambda>e. describes e (16, 1)) (manifest_images (converter_failing_on (16, 1) 1))
     = [JDict [(''idiom'', JString ''mac''), (''scale'', JString ''1x''), (''size'', JString ''16x16'')]]
   \<and> length (filter (\<lambda>argv. argv = invocation (16, 1))
               (invocations (trace (converter_failing_on (16, 1) 1)))) = 1
   \<and> filter (\<lambda>e. describes e (16, 2)) (manifest_images converter_ok)
       = filter (\<lambda>e. describes e (16, 2)) (manifest_images (converter_failing_on (16, 1) 1))"
proof -
  let ?run = "converter_failing_on (16, 1) 1"
  have mem: "(16, 1) \<in> set SIZES" "(16, 2) \<in> set SIZES" by (simp_all add: SIZES_def)
  have r: "?run (invocation (16, 1)) = Exited 1 True"
    by (simp add: converter_failing_on_def)
  have ret: "returns ?run" by (rule returns_examples)
  have "invocation (16, 2) \<noteq> invocation (16, 1)"
    by (simp add: invocation_eq str_values)
  then have ok: "converter_ok (invocation (16, 2)) = ?run (invocation (16, 2))"
    by (simp add: converter_ok_def converter_failing_on_def)
  have one_nonzero: "(1::int) \<noteq> 0" by simp
  note inst = nonzero_status_marks_missing [of "(16, 1)" ?run 1 "[]" "[]", OF mem(1) r one_nonzero]
  have z: "render_one ?run svg_path ([], []) (16, 1)
     = (([], [] @ [SubprocessRun (invocation (16, 1)), Print (skipped_line (16, 1))]), None)"
    using inst by (rule conjunct1)
  note rest = inst [THEN conjunct2, THEN mp, OF ret]
  have a: "filter (\<lambda>e. describes e (16, 1)) (manifest_images ?run) = [missing_entry (16, 1)]"
    using rest by (rule conjunct1)
  have b: "length (filter (\<lambda>argv. argv = invocation (16, 1)) (invocations (trace ?run))) = 1"
    using rest by (elim conjE)
  have "\<forall>sp' \<in> set SIZES. \<forall>run'. returns run' \<longrightarrow>
               run' (invocation sp') = ?run (invocation sp') \<longrightarrow>
               filter (\<lambda>e. describes e sp') (manifest_images run')
                 = filter (\<lambda>e. describes e sp') (manifest_images ?run)"
    using rest by (elim conjE)
  then have "\<forall>run'. returns run' \<longrightarrow>
               run' (invocation (16, 2)) = ?run (invocation (16, 2)) \<longrightarrow>
               filter (\<lambda>e. describes e (16, 2)) (manifest_images run')
                 = filter (\<lambda>e. describes e (16, 2)) (manifest_images ?run)"
    using mem(2) by (rule bspec)
  then have "returns converter_ok \<longrightarrow>
               converter_ok (invocation (16, 2)) = ?run (invocation (16, 2)) \<longrightarrow>
               filter (\<lambda>e. describes e (16, 2)) (manifest_images converter_ok)
                 = filter (\<lambda>e. describes e (16, 2)) (manifest_images ?run)"
    by (rule spec)
  then have c: "filter (\<lambda>e. describes e (16, 2)) (manifest_images converter_ok)
       = filter (\<lambda>e. describes e (16, 2)) (manifest_images ?run)"
    using returns_examples(1) ok by blast
  have m: "missing_entry (16, 1) =
      JDict [(''idiom'', JString ''mac''), (''scale'', JString ''1x''), (''size'', JString ''16x16'')]"
    by (simp add: missing_entry_def str_values)
  from z a b c m show ?thesis by (simp only: append_Nil) 
qed

text \<open>
  Claim C5 as it is written fails when the converter, invoked for the third pair
  \<open>(32, 1)\<close>, runs and exits with the status 1 but with output that does not decode:
  \<^verbatim>\<open>subprocess.run\<close> raises \<^verbatim>\<open>UnicodeDecodeError\<close>, which the script does not catch.
  The run ends there: no \<^verbatim>\<open>Skipped\<close> line is printed, no later pair is processed and
  \<^verbatim>\<open>Contents.json\<close> is not written.
\<close>

theorem garbled_output_ends_run:
  "converter_garbled_on (32, 1) 1 (invocation (32, 1)) = Exited 1 False
   \<and> snd (main (converter_garbled_on (32, 1) 1)) = Some UnicodeDecodeError
   \<and> last (trace (converter_garbled_on (32, 1) 1)) = SubprocessRun (invocation (32, 1))
   \<and> printed (trace (converter_garbled_on (32, 1) 1)) =
       [''Created SVG at /tmp/enclave_icon.svg'', ''Generated icon_16x16@1x.png'',
        ''Generated icon_16x16@2x.png'']
   \<and> fs_after (trace (converter_garbled_on (32, 1) 1)) Map.empty contents_path = None"
proof -
  have "contents_path \<noteq> svg_path"
    by (simp add: contents_path_def path_join_def ICON_DIR_def svg_path_def)
  then show ?thesis
    by (simp add: trace_garbled_on_32_1 not_returns_garbled_on_32_1 converter_garbled_on_def
          fs_after_def generated_line_def icon_filename_def str_values)
       (simp add: svg_path_def)
qed

text \<open>
  Claim C7. When the run returns and the converter succeeds on every pair of \<open>SIZES\<close>
  but \<open>(512, 2)\<close>, the list under \<^verbatim>\<open>images\<close> has ten entries, nine of them with the
  key \<^verbatim>\<open>filename\<close>, and the only entry without it is the one with size
  \<^verbatim>\<open>512x512\<close> and scale \<^verbatim>\<open>2x\<close>.
\<close>

theorem only_512_at_2x_fails:
  assumes "returns run" and "\<forall>sp \<in> set SIZES. succeeds run sp = (sp \<noteq> (512, 2))"
  shows "length (manifest_images run) = 10
     \<and> length (filter has_filename (manifest_images run)) = 9
     \<and> filter (\<lambda>e. \<not> has_filename e) (manifest_images run)
         = [JDict [(''idiom'', JString ''mac''), (''scale'', JString ''2x''),
                   (''size'', JString ''512x512'')]]"
proof -
  have "filter (succeeds run) SIZES = filter (\<lambda>sp. sp \<noteq> (512, 2)) SIZES"
    using assms(2) by (intro filter_cong refl) simp
  then have a: "length (filter (succeeds run) SIZES) = 9"
    by (simp add: SIZES_def)
  have "filter (\<lambda>sp. \<not> succeeds run sp) SIZES = filter (\<lambda>sp. sp = (512, 2)) SIZES"
    using assms(2) by (intro filter_cong refl) simp
  then have b: "filter (\<lambda>sp. \<not> succeeds run sp) SIZES = [(512, 2)]"
    by (simp add: SIZES_def)
  show ?thesis
    by (simp add: length_manifest_images [OF assms(1)] filter_has_filename [OF assms(1)] a b
          missing_entry_def str_values)
qed

theorem only_512_at_2x_fails_witness:
  "length (filter has_filename (manifest_images (converter_failing_on (512, 2) 1))) = 9
   \<and> filter (\<lambda>e. \<not> has_filename e) (manifest_images (converter_failing_on (512, 2) 1))
         = [JDict [(''idiom'', JString ''mac''), (''scale'', JString ''2x''),
                   (''size'', JString ''512x512'')]]"
proof -
  have "(512, 2) \<in> set SIZES" by (simp add: SIZES_def)
  then have "\<forall>sp \<in> set SIZES. succeeds (converter_failing_on (512, 2) 1) sp = (sp \<noteq> (512, 2))"
    by (simp add: succeeds_failing_on)
  from only_512_at_2x_fails [OF returns_examples(3) this] show ?thesis by simp
qed

section \<open>The bytes of \<^verbatim>\<open>Contents.json\<close>\<close>

text \<open>The serialisation of \<open>contents\<close> computed for two converters: one that is not
  installed, and one that fails on the first pair only. Both texts are what
  \<^verbatim>\<open>json.dump\<close> with \<^verbatim>\<open>indent=2\<close> writes for these dictionaries.\<close>

lemma contents_json_converter_absent:
  \<open>json_dump (contents converter_absent) =
     ''{\<newline>'' @
     ''  "images": [\<newline>'' @
     ''    {\<newline>'' @
     ''      "idiom": "mac",\<newline>'' @
     ''      "scale": "1x",\<newline>'' @
     ''      "size": "16x16"\<newline>'' @
     ''    },\<newline>'' @
     ''    {\<newline>'' @
     ''      "idiom": "mac",\<newline>'' @
     ''      "scale": "2x",\<newline>'' @
     ''      "size": "16x16"\<newline>'' @
     ''    },\<newline>'' @
     ''    {\<newline>'' @
     ''      "idiom": "mac",\<newline>'' @
     ''      "scale": "1x",\<newline>'' @
     ''      "size": "32x32"\<newline>'' @
     ''    },\<newline>'' @
     ''    {\<newline>'' @
     ''      "idiom": "mac",\<newline>'' @
     ''      "scale": "2x",\<newline>'' @
     ''      "size": "32x32"\<newline>'' @
     ''    },\<newline>'' @
     ''    {\<newline>'' @
     ''      "idiom": "mac",\<newline>'' @
     ''      "scale": "1x",\<newline>'' @
     ''      "size": "128x128"\<newline>'' @
     ''    },\<newline>'' @
     ''    {\<newline>'' @
     ''      "idiom": "mac",\<newline>'' @
     ''      "scale": "2x",\<newline>'' @
     ''      "size": "128x128"\<newline>'' @
     ''    },\<newline>'' @
     ''    {\<newline>'' @
     ''      "idiom": "mac",\<newline>'' @
     ''      "scale": "1x",\<newline>'' @
     ''      "size": "256x256"\<newline>'' @
     ''    },\<newline>'' @
     ''    {\<newline>'' @
     ''      "idiom": "mac",\<newline>'' @
     ''      "scale": "2x",\<newline>'' @
     ''      "size": "256x256"\<newline>'' @
     ''    },\<newline>'' @
     ''    {\<newline>'' @
     ''      "idiom": "mac",\<newline>'' @
     ''      "scale": "1x",\<newline>'' @
     ''      "size": "512x512"\<newline>'' @
     ''    },\<newline>'' @
     ''    {\<newline>'' @
     ''      "idiom": "mac",\<newline>'' @
     ''      "scale": "2x",\<newline>'' @
     ''      "size": "512x512"\<newline>'' @
     ''    }\<newline>'' @
     ''  ],\<newline>'' @
     ''  "info": {\<newline>'' @
     ''    "author": "xcode",\<newline>'' @
     ''    "version": 1\<newline>'' @
     ''  }\<newline>'' @
     ''}''\<close>
  by code_simp

lemma contents_json_first_fails:
  \<open>json_dump (contents (converter_failing_on (16, 1) 1)) =
     ''{\<newline>'' @
     ''  "images": [\<newline>'' @
     ''    {\<newline>'' @
     ''      "filename": "icon_16x16@2x.png",\<newline>'' @
     ''      "idiom": "mac",\<newline>'' @
     ''      "scale": "2x",\<newline>'' @
     ''      "size": "16x16"\<newline>'' @
     ''    },\<newline>'' @
     ''    {\<newline>'' @
     ''      "filename": "icon_32x32@1x.png",\<newline>'' @
     ''      "idiom": "mac",\<newline>'' @
     ''      "scale": "1x",\<newline>'' @
     ''      "size": "32x32"\<newline>'' @
     ''    },\<newline>'' @
     ''    {\<newline>'' @
     ''      "filename": "icon_32x32@2x.png",\<newline>'' @
     ''      "idiom": "mac",\<newline>'' @
     ''      "scale": "2x",\<newline>'' @
     ''      "size": "32x32"\<newline>'' @
     ''    },\<newline>'' @
     ''    {\<newline>'' @
     ''      "filename": "icon_128x128@1x.png",\<newline>'' @
     ''      "idiom": "mac",\<newline>'' @
     ''      "scale": "1x",\<newline>'' @
     ''      "size": "128x128"\<newline>'' @
     ''    },\<newline>'' @
     ''    {\<newline>'' @
     ''      "filename": "icon_128x128@2x.png",\<newline>'' @
     ''      "idiom": "mac",\<newline>'' @
     ''      "scale": "2x",\<newline>'' @
     ''      "size": "128x128"\<newline>'' @
     ''    },\<newline>'' @
     ''    {\<newline>'' @
     ''      "filename": "icon_256x256@1x.png",\<newline>'' @
     ''      "idiom": "mac",\<newline>'' @
     ''      "scale": "1x",\<newline>'' @
     ''      "size": "256x256"\<newline>'' @
     ''    },\<newline>'' @
     ''    {\<newline>'' @
     ''      "filename": "icon_256x256@2x.png",\<newline>'' @
     ''      "idiom": "mac",\<newline>'' @
     ''      "scale": "2x",\<newline>'' @
     ''      "size": "256x256"\<newline>'' @
     ''    },\<newline>'' @
     ''    {\<newline>'' @
     ''      "filename": "icon_512x512@1x.png",\<newline>'' @
     ''      "idiom": "mac",\<newline>'' @
     ''      "scale": "1x",\<newline>'' @
     ''      "size": "512x512"\<newline>'' @
     ''    },\<newline>'' @
     ''    {\<newline>'' @
     ''      "filename": "icon_512x512@2x.png",\<newline>'' @
     ''      "idiom": "mac",\<newline>'' @
     ''      "scale": "2x",\<newline>'' @
     ''      "size": "512x512"\<newline>'' @
     ''    },\<newline>'' @
     ''    {\<newline>'' @
     ''      "idiom": "mac",\<newline>'' @
     ''      "scale": "1x",\<newline>'' @
     ''      "size": "16x16"\<newline>'' @
     ''    }\<newline>'' @
     ''  ],\<newline>'' @
     ''  "info": {\<newline>'' @
     ''    "author": "xcode",\<newline>'' @
     ''    "version": 1\<newline>'' @
     ''  }\<newline>'' @
     ''}''\<close>
  by code_simp

section \<open>Determinism and distinct file names\<close>

lemma contents_cong:
  assumes "returns run1" "returns run2"
    and "\<forall>sp \<in> set SIZES. succeeds run1 sp = succeeds run2 sp"
  shows "contents run1 = contents run2"
proof -
  have "filter (succeeds run1) SIZES = filter (succeeds run2) SIZES"
    using assms(3) by (intro filter_cong refl) simp
  then show ?thesis
    by (simp only: contents_def images_rendered returns_attempted [OF assms(1)]
          returns_attempted [OF assms(2)])
qed

text \<open>
  Claim C8. The content of \<^verbatim>\<open>Contents.json\<close> after a run that returns is the
  serialisation of \<open>contents\<close>, whatever the file system held before. Two such runs
  whose converters succeed on the same pairs of \<open>SIZES\<close> leave the same content in
  the file, from any two starting file systems; so does a second run on the file system
  the first run left.
\<close>

theorem contents_json_deterministic:
  assumes "returns run1" and "returns run2"
    and "\<forall>sp \<in> set SIZES. succeeds run1 sp = succeeds run2 sp"
  shows "fs_after (trace run1) fs1 contents_path = Some (json_dump (contents run1))
     \<and> fs_after (trace run2) fs2 contents_path = fs_after (trace run1) fs1 contents_path
     \<and> fs_after (trace run2) (fs_after (trace run1) fs1) contents_path
         = fs_after (trace run1) fs1 contents_path"
  using contents_cong [OF assms]
  by (simp only: fs_after_trace [OF assms(1)] fs_after_trace [OF assms(2)])

theorem contents_json_deterministic_witness:
  "fs_after (trace (converter_failing_on (16, 1) 2)) (Map.empty(contents_path \<mapsto> ''old''))
       contents_path
     = fs_after (trace (converter_failing_on (16, 1) 1)) Map.empty contents_path
   \<and> fs_after (trace (converter_failing_on (16, 1) 1)) Map.empty contents_path
       = Some (json_dump (contents (converter_failing_on (16, 1) 1)))"
proof -
  have "(16, 1) \<in> set SIZES" by (simp add: SIZES_def)
  then have "\<forall>sp \<in> set SIZES. succeeds (converter_failing_on (16, 1) 1) sp
                = succeeds (converter_failing_on (16, 1) 2) sp"
    by (simp add: succeeds_failing_on)
  from contents_json_deterministic [OF returns_examples(3) returns_examples(3) this,
      of Map.empty "Map.empty(contents_path \<mapsto> ''old'')"]
  show ?thesis by (simp only:)
qed

lemma inj_on_icon_filename: "inj_on (\<lambda>(sz, scale). icon_filename sz scale) (set SIZES)"
proof -
  have "distinct (map (\<lambda>(sz, scale). icon_filename sz scale) SIZES)"
    by (simp only: icon_filename_values) simp
  then show ?thesis by (simp add: distinct_map)
qed

lemma attempted_subset: "set (attempted run SIZES) \<subseteq> set SIZES"
proof -
  obtain n where "attempted run SIZES = take n SIZES" using attempted_take by blast
  then show ?thesis by (simp add: set_take_subset)
qed

lemma distinct_attempted_sizes: "distinct (attempted run SIZES)"
proof -
  obtain n where "attempted run SIZES = take n SIZES" using attempted_take by blast
  then show ?thesis by (simp add: distinct_SIZES)
qed

lemma manifest_filenames:
  "List.map_filter (\<lambda>e. dict_get e ''filename'') (manifest_images run)
     = map (\<lambda>sp. JString ((\<lambda>(sz, scale). icon_filename sz scale) sp))
         (filter (succeeds run) (attempted run SIZES))"
proof -
  have "filter (\<lambda>e. dict_get e ''filename'' \<noteq> None) (manifest_images run)
          = map (\<lambda>sp. produced_entry (image_of sp)) (filter (succeeds run) (attempted run SIZES))"
    using has_filename_entries
    by (simp add: manifest_images_attempted filter_map o_def has_filename_def)
  then show ?thesis
    by (simp add: List.map_filter_def o_def entry_fields split: prod.splits)
qed

lemma output_paths:
  "map (\<lambda>argv. argv ! 6) (map invocation xs)
     = map (\<lambda>sp. ICON_DIR @ ''/'' @ (\<lambda>(sz, scale). icon_filename sz scale) sp) xs"
  by (simp add: invocation_eq icon_filename_def split: prod.splits)

lemma inj_on_JString: "inj_on f A \<Longrightarrow> B \<subseteq> A \<Longrightarrow> inj_on (\<lambda>x. JString (f x)) B"
  by (auto simp: inj_on_def)

lemma inj_on_prepend: "inj_on f A \<Longrightarrow> B \<subseteq> A \<Longrightarrow> inj_on (\<lambda>x. p @ f x) B"
  by (auto simp: inj_on_def)

text \<open>
  Claim C10. The file names of the ten pairs of \<open>SIZES\<close> are pairwise distinct. So,
  whatever the converter does, no two entries of the list under \<^verbatim>\<open>images\<close> have the
  same \<^verbatim>\<open>filename\<close>, and no two invocations of the run are given the same output
  path (the argument after \<^verbatim>\<open>-o\<close>).
\<close>

theorem icon_filenames_distinct:
  "inj_on (\<lambda>(sz, scale). icon_filename sz scale) (set SIZES)
   \<and> distinct (List.map_filter (\<lambda>e. dict_get e ''filename'') (manifest_images run))
   \<and> distinct (map (\<lambda>argv. argv ! 6) (invocations (trace run)))"
proof (intro conjI)
  let ?f = "\<lambda>(sz, scale). icon_filename sz scale"
  show inj: "inj_on ?f (set SIZES)" by (rule inj_on_icon_filename)
  have "set (filter (succeeds run) (attempted run SIZES)) \<subseteq> set SIZES"
    using attempted_subset [of run] by auto
  with inj have "inj_on (\<lambda>sp. JString (?f sp)) (set (filter (succeeds run) (attempted run SIZES)))"
    by (rule inj_on_JString)
  then show "distinct (List.map_filter (\<lambda>e. dict_get e ''filename'') (manifest_images run))"
    by (simp only: manifest_filenames distinct_map distinct_filter distinct_attempted_sizes
          simp_thms)
  have "inj_on (\<lambda>sp. (ICON_DIR @ ''/'') @ ?f sp) (set (attempted run SIZES))"
    using inj attempted_subset by (rule inj_on_prepend)
  then have "inj_on (\<lambda>sp. ICON_DIR @ ''/'' @ ?f sp) (set (attempted run SIZES))"
    by simp
  then show "distinct (map (\<lambda>argv. argv ! 6) (invocations (trace run)))"
    by (simp only: invocations_trace output_paths distinct_map distinct_attempted_sizes
          simp_thms)
qed

end
